theory Spec2Isabelle
  imports Complex_Main
begin

section \<open>Two-component vectors and the shader built-ins\<close>

text \<open>
  The evaluator runs on the GPU in single-precision floats. The development idealises
  floats as real numbers: rounding, infinities and NaN are outside the model.
  \<open>float2\<close> (Metal) and \<open>vec2\<close> (GLSL) are pairs; the operators and the built-ins
  \<open>length\<close>, \<open>normalize\<close>, \<open>clamp\<close> and \<open>smoothstep\<close> have the meaning the shading
  language standards give them.
\<close>

type_synonym float2 = "real \<times> real"

definition vadd :: "float2 \<Rightarrow> float2 \<Rightarrow> float2" where
  "vadd a b = (fst a + fst b, snd a + snd b)"

definition vsub :: "float2 \<Rightarrow> float2 \<Rightarrow> float2" where
  "vsub a b = (fst a - fst b, snd a - snd b)"

definition vscale :: "float2 \<Rightarrow> real \<Rightarrow> float2" where
  "vscale a k = (fst a * k, snd a * k)"

definition length_vec :: "float2 \<Rightarrow> real" where
  "length_vec a = sqrt (fst a * fst a + snd a * snd a)"

definition normalize_vec :: "float2 \<Rightarrow> float2" where
  "normalize_vec a = (fst a / length_vec a, snd a / length_vec a)"

definition clamp_real :: "real \<Rightarrow> real \<Rightarrow> real \<Rightarrow> real" where
  "clamp_real v lo hi = min (max v lo) hi"

definition clamp_vec :: "float2 \<Rightarrow> float2 \<Rightarrow> float2 \<Rightarrow> float2" where
  "clamp_vec a lo hi = (clamp_real (fst a) (fst lo) (fst hi), clamp_real (snd a) (snd lo) (snd hi))"

definition smoothstep :: "real \<Rightarrow> real \<Rightarrow> real \<Rightarrow> real" where
  "smoothstep edge0 edge1 v =
     (let t = clamp_real ((v - edge0) / (edge1 - edge0)) 0 1 in t * t * (3 - 2 * t))"

definition in_unit_square :: "float2 \<Rightarrow> bool" where
  "in_unit_square a = (0 \<le> fst a \<and> fst a \<le> 1 \<and> 0 \<le> snd a \<and> snd a \<le> 1)"

section \<open>The Metal evaluator: \<open>applyWarp\<close> of WarpShader.metal\<close>

record ControlPoint =
  position :: float2
  strength :: real
  radius :: real
  type :: int

record WarpUniforms =
  videoSize :: float2
  globalStrength :: real
  numControlPoints :: int
  time :: real
  interpolationType :: int

text \<open>The \<open>switch\<close> on \<open>uniforms.interpolationType\<close>; a value without a case changes nothing.\<close>

definition interpolate :: "int \<Rightarrow> real \<Rightarrow> real" where
  "interpolate interpolationType_u influence =
     (if interpolationType_u = 0 then influence
      else if interpolationType_u = 1 then smoothstep 0 1 influence
      else if interpolationType_u = 2 then influence * influence * (3 - 2 * influence)
      else influence)"

text \<open>The body of the loop of \<open>applyWarp\<close>, for one control point.\<close>

definition warpPoint :: "float2 \<Rightarrow> ControlPoint \<Rightarrow> WarpUniforms \<Rightarrow> float2 \<Rightarrow> float2" where
  "warpPoint pos point uniforms warpedPosition =
     (let offset = vsub pos (position point);
          distance = length_vec offset
      in if radius point \<le> distance \<or> distance < 0.001 then warpedPosition
         else
           let influence =
                 interpolate (interpolationType uniforms) (1 - distance / radius point)
           in if type point = 0 then
                (let warpDirection = normalize_vec offset;
                     warpMagnitude = strength point * influence * globalStrength uniforms
                 in vadd warpedPosition (vscale (vscale warpDirection warpMagnitude) 0.1))
              else
                (let anchorStrength = strength point * influence * globalStrength uniforms
                 in vsub warpedPosition (vscale (vscale offset anchorStrength) 0.05)))"

text \<open>
  The loop \<open>for (int i = 0; i < uniforms.numControlPoints && i < 16; i++)\<close>. The control
  points are a device buffer; a read past its end has no defined value and is \<open>None\<close>.
\<close>

function applyWarp_loop ::
  "float2 \<Rightarrow> ControlPoint list \<Rightarrow> WarpUniforms \<Rightarrow> nat \<Rightarrow> float2 \<Rightarrow> float2 option" where
  "applyWarp_loop pos controlPoints uniforms i warpedPosition =
     (if int i < numControlPoints uniforms \<and> i < 16 then
        (if i < length controlPoints then
           applyWarp_loop pos controlPoints uniforms (Suc i)
             (warpPoint pos (controlPoints ! i) uniforms warpedPosition)
         else None)
      else Some warpedPosition)"
  by pat_completeness auto
termination
  by (relation "measure (\<lambda>(pos, controlPoints, uniforms, i, warpedPosition). 16 - i)") auto

definition applyWarp :: "float2 \<Rightarrow> ControlPoint list \<Rightarrow> WarpUniforms \<Rightarrow> float2 option" where
  "applyWarp pos controlPoints uniforms =
     map_option (\<lambda>warpedPosition. clamp_vec warpedPosition (0, 0) (1, 1))
       (applyWarp_loop pos controlPoints uniforms 0 pos)"

declare applyWarp_loop.simps [simp del]

section \<open>The web evaluator: \<open>applyWarp\<close> of the GLSL vertex shader\<close>

text \<open>
  The uniforms of the vertex shader of \<open>VideoProcessor.initializeWebGL\<close>. The three arrays
  are declared with 16 entries each.
\<close>

record ShaderUniforms =
  u_controlPoints :: "float2 list"
  u_controlStrengths :: "real list"
  u_controlRadii :: "real list"
  u_numControlPoints :: int
  u_globalStrength :: real

definition warpPoint_glsl :: "ShaderUniforms \<Rightarrow> float2 \<Rightarrow> nat \<Rightarrow> float2 \<Rightarrow> float2" where
  "warpPoint_glsl U pos i warpedPos =
     (let controlPoint = u_controlPoints U ! i;
          strength_i = u_controlStrengths U ! i;
          radius_i = u_controlRadii U ! i;
          offset = vsub pos controlPoint;
          distance = length_vec offset
      in if distance < radius_i \<and> 0 < distance then
           (let influence0 = 1 - distance / radius_i;
                influence = smoothstep 0 1 influence0;
                warpDirection = normalize_vec offset;
                warpAmount = strength_i * influence * u_globalStrength U
            in vadd warpedPos (vscale (vscale warpDirection warpAmount) 0.1))
         else warpedPos)"

function applyWarp_glsl_loop :: "ShaderUniforms \<Rightarrow> float2 \<Rightarrow> nat \<Rightarrow> float2 \<Rightarrow> float2" where
  "applyWarp_glsl_loop U pos i warpedPos =
     (if int i < u_numControlPoints U \<and> i < 16 then
        applyWarp_glsl_loop U pos (Suc i) (warpPoint_glsl U pos i warpedPos)
      else warpedPos)"
  by pat_completeness auto
termination
  by (relation "measure (\<lambda>(U, pos, i, warpedPos). 16 - i)") auto

declare applyWarp_glsl_loop.simps [simp del]

definition applyWarp_glsl :: "ShaderUniforms \<Rightarrow> float2 \<Rightarrow> float2" where
  "applyWarp_glsl U pos = applyWarp_glsl_loop U pos 0 pos"

section \<open>The web host: \<open>VideoProcessor\<close> (TypeScript)\<close>

datatype PointType = Stretch | Anchor

datatype Interpolation = Linear | Smooth | Elastic

datatype Quality = Draft | Preview | Final

text \<open>
  \<open>ControlPoint\<close> and \<open>WarpSettings\<close> of \<open>types/index.ts\<close>. The fields carry a prefix where
  the Metal structures above use the same name.
\<close>

record WebControlPoint =
  cp_id :: string
  cp_x :: real
  cp_y :: real
  cp_type :: PointType
  cp_strength :: real
  cp_radius :: real
  cp_locked :: bool

record WarpSettings =
  ws_strength :: real
  ws_interpolation :: Interpolation
  ws_preserveAspectRatio :: bool
  ws_realTimePreview :: bool
  ws_quality :: Quality

text \<open>
  The three \<open>Float32Array\<close>s that \<open>render\<close> fills from \<open>this.controlPoints.slice(0, 16)\<close>:
  32 coordinates, 16 strengths and 16 radii, all zero at first.
\<close>

definition fillArrays :: "WebControlPoint list \<Rightarrow> real list \<times> real list \<times> real list" where
  "fillArrays cps =
     fold (\<lambda>(i, point) (points, strengths, radii).
             (points[i * 2 := cp_x point, i * 2 + 1 := cp_y point],
              strengths[i := cp_strength point],
              radii[i := cp_radius point]))
       (enumerate 0 (take 16 cps))
       (replicate 32 0, replicate 16 0, replicate 16 0)"

text \<open>\<open>gl.uniform2fv\<close> reads consecutive pairs of floats into the \<open>vec2\<close> array.\<close>

definition vec2_array :: "real list \<Rightarrow> float2 list" where
  "vec2_array points = map (\<lambda>i. (points ! (2 * i), points ! (2 * i + 1))) [0..<16]"

text \<open>The uniforms \<open>render\<close> sets for the control points and the global strength.\<close>

definition render_uniforms :: "WebControlPoint list \<Rightarrow> WarpSettings \<Rightarrow> ShaderUniforms" where
  "render_uniforms cps settings =
     (case fillArrays cps of (points, strengths, radii) \<Rightarrow>
        \<lparr> u_controlPoints = vec2_array points,
          u_controlStrengths = strengths,
          u_controlRadii = radii,
          u_numControlPoints = min (int (length cps)) 16,
          u_globalStrength = ws_strength settings \<rparr>)"

text \<open>The displacement of a vertex on the web: the shader under the uniforms of \<open>render\<close>.\<close>

definition displace_web :: "float2 \<Rightarrow> WebControlPoint list \<Rightarrow> WarpSettings \<Rightarrow> float2" where
  "displace_web pos cps settings = applyWarp_glsl (render_uniforms cps settings) pos"

subsection \<open>The render tick\<close>

text \<open>
  \<open>render\<close> acts on the WebGL context only. The model returns the calls it issues, in
  order; \<open>getAttribLocation\<close> and \<open>getUniformLocation\<close> only look a name up, so attributes
  and uniforms are written by name. The picture a video element holds is an abstract
  frame number. \<open>render\<close> contains no \<open>throw\<close>: every path returns.
\<close>

record HTMLVideoElement =
  readyState :: nat
  frame :: nat

definition HAVE_CURRENT_DATA :: nat where
  "HAVE_CURRENT_DATA = 2"

datatype gl_call =
    BindTexture
  | TexImage2D nat
  | Viewport real real
  | ClearColor real real real real
  | Clear
  | UseProgram
  | BindArrayBuffer
  | EnableVertexAttribArray string
  | VertexAttribPointer string nat
  | Uniform2f string real real
  | Uniform1f string real
  | Uniform1i string int
  | Uniform2fv string "real list"
  | Uniform1fv string "real list"
  | ActiveTexture
  | BindElementArrayBuffer
  | DrawElements nat

record VideoProcessor =
  canvas_width :: real
  canvas_height :: real
  video :: "HTMLVideoElement option"
  shaderProgram :: "nat option"
  texture :: "nat option"
  vertexBuffer :: "nat option"
  indexBuffer :: "nat option"
  controlPoints :: "WebControlPoint list"
  warpSettings :: WarpSettings
  meshResolution :: nat
  isInitialized :: bool

text \<open>The texture upload of \<open>render\<close>, guarded by the element's ready state.\<close>

definition render_upload :: "HTMLVideoElement \<Rightarrow> gl_call list" where
  "render_upload v =
     (if HAVE_CURRENT_DATA \<le> readyState v then [BindTexture, TexImage2D (frame v)] else [])"

text \<open>The rest of \<open>render\<close>: clear the canvas, set attributes and uniforms, draw the mesh.\<close>

definition render_pass :: "VideoProcessor \<Rightarrow> real option \<Rightarrow> gl_call list" where
  "render_pass vp currentTime =
     (let vertexCount = (meshResolution vp + 1) * (meshResolution vp + 1);
          qualityValue =
            (if ws_quality (warpSettings vp) = Final then 1.0
             else if ws_quality (warpSettings vp) = Preview then 0.8 else 0.5);
          indexCount = meshResolution vp * meshResolution vp * 6
      in case fillArrays (controlPoints vp) of (points, strengths, radii) \<Rightarrow>
        [Viewport (canvas_width vp) (canvas_height vp),
         ClearColor 0 0 0 1,
         Clear,
         UseProgram,
         BindArrayBuffer,
         EnableVertexAttribArray ''a_position'',
         VertexAttribPointer ''a_position'' 0,
         EnableVertexAttribArray ''a_texCoord'',
         VertexAttribPointer ''a_texCoord'' (vertexCount * 2 * 4),
         Uniform2f ''u_resolution'' (canvas_width vp) (canvas_height vp),
         Uniform1f ''u_time'' (case currentTime of None \<Rightarrow> 0 | Some t \<Rightarrow> t),
         Uniform1f ''u_globalStrength'' (ws_strength (warpSettings vp)),
         Uniform1f ''u_quality'' qualityValue,
         Uniform1i ''u_numControlPoints'' (min (int (length (controlPoints vp))) 16),
         Uniform2fv ''u_controlPoints'' points,
         Uniform1fv ''u_controlStrengths'' strengths,
         Uniform1fv ''u_controlRadii'' radii,
         ActiveTexture,
         BindTexture,
         Uniform1i ''u_texture'' 0,
         BindElementArrayBuffer,
         DrawElements indexCount])"

definition render :: "VideoProcessor \<Rightarrow> real option \<Rightarrow> gl_call list" where
  "render vp currentTime =
     (if \<not> isInitialized vp \<or> video vp = None \<or> shaderProgram vp = None then []
      else case video vp of
             None \<Rightarrow> []
           | Some v \<Rightarrow> render_upload v @ render_pass vp currentTime)"

section \<open>Mesh generation\<close>

text \<open>
  \<open>VideoProcessor.createMesh\<close>: two nested loops push the coordinates \<open>u, v\<close> of every
  vertex onto \<open>vertices\<close>, two more push six indices per cell onto \<open>indices\<close>. The
  resolution \<open>this.meshResolution\<close> is the parameter \<open>R\<close>.
\<close>

definition createMesh_vertices :: "nat \<Rightarrow> real list" where
  "createMesh_vertices R =
     fold (\<lambda>y vertices.
             fold (\<lambda>x vertices. vertices @ [real x / real R, real y / real R])
               [0..<Suc R] vertices)
       [0..<Suc R] []"

definition cell_indices :: "nat \<Rightarrow> nat \<Rightarrow> nat \<Rightarrow> nat list" where
  "cell_indices R y x =
     (let topLeft = y * (R + 1) + x;
          topRight = topLeft + 1;
          bottomLeft = (y + 1) * (R + 1) + x;
          bottomRight = bottomLeft + 1
      in [topLeft, bottomLeft, topRight] @ [topRight, bottomLeft, bottomRight])"

definition createMesh_indices :: "nat \<Rightarrow> nat list" where
  "createMesh_indices R =
     fold (\<lambda>y indices. fold (\<lambda>x indices. indices @ cell_indices R y x) [0..<R] indices)
       [0..<R] []"

text \<open>What one pass of the inner loop pushes: a row of vertices, a row of cells.\<close>

definition vertex_row :: "nat \<Rightarrow> nat \<Rightarrow> real list" where
  "vertex_row R y = concat (map (\<lambda>x. [real x / real R, real y / real R]) [0..<Suc R])"

definition index_row :: "nat \<Rightarrow> nat \<Rightarrow> nat list" where
  "index_row R y = concat (map (cell_indices R y) [0..<R])"

text \<open>
  The compute kernel \<open>generateMesh\<close> of WarpShader.metal, for the thread \<open>index\<close>: the
  vertex it writes to \<open>vertices[index]\<close> and the entries it writes to \<open>indices\<close>, each with
  its offset. A thread past the last vertex returns at once.
\<close>

definition MESH_RESOLUTION :: nat where
  "MESH_RESOLUTION = 32"

record MeshVertex =
  mv_position :: float2
  texCoords :: float2

definition generateMesh :: "nat \<Rightarrow> (MeshVertex \<times> (nat \<times> nat) list) option" where
  "generateMesh index =
     (if (MESH_RESOLUTION + 1) * (MESH_RESOLUTION + 1) \<le> index then None
      else
        let x = index mod (MESH_RESOLUTION + 1);
            y = index div (MESH_RESOLUTION + 1);
            u = real x / real MESH_RESOLUTION;
            v = real y / real MESH_RESOLUTION
        in Some (\<lparr> mv_position = (u, v), texCoords = (u, v) \<rparr>,
                 if x < MESH_RESOLUTION \<and> y < MESH_RESOLUTION then
                   (let quadIndex = y * MESH_RESOLUTION + x;
                        indexBase = quadIndex * 6;
                        topLeft = y * (MESH_RESOLUTION + 1) + x;
                        topRight = topLeft + 1;
                        bottomLeft = (y + 1) * (MESH_RESOLUTION + 1) + x;
                        bottomRight = bottomLeft + 1
                    in [(indexBase + 0, topLeft), (indexBase + 1, bottomLeft),
                        (indexBase + 2, topRight), (indexBase + 3, topRight),
                        (indexBase + 4, bottomLeft), (indexBase + 5, bottomRight)])
                 else []))"

section \<open>The control point store (Swift)\<close>

text \<open>
  \<open>ControlPoint\<close> of the Swift sources, with the default arguments of its initialiser.
  A \<open>CGPoint\<close> and a \<open>CGSize\<close> are pairs; the \<open>UUID\<close> drawn for a new point is a parameter.
\<close>

record SwiftControlPoint =
  point_id :: nat
  point_position :: float2
  point_type :: PointType
  point_strength :: real
  point_radius :: real
  isLocked :: bool

definition ControlPoint_init :: "nat \<Rightarrow> float2 \<Rightarrow> SwiftControlPoint" where
  "ControlPoint_init uuid p =
     \<lparr> point_id = uuid, point_position = p, point_type = Stretch,
       point_strength = 1.0, point_radius = 0.1, isLocked = False \<rparr>"

definition fromViewCoordinates :: "float2 \<Rightarrow> float2 \<Rightarrow> float2" where
  "fromViewCoordinates point sz = (fst point / fst sz, snd point / snd sz)"

fun firstIndex :: "('a \<Rightarrow> bool) \<Rightarrow> 'a list \<Rightarrow> nat option" where
  "firstIndex P [] = None"
| "firstIndex P (c # cs) = (if P c then Some 0 else map_option Suc (firstIndex P cs))"

text \<open>\<open>VideoProcessor.addControlPoint(at:)\<close> and \<open>VideoProcessor.updateControlPoint\<close>.\<close>

definition addControlPoint ::
  "nat \<Rightarrow> float2 \<Rightarrow> float2 \<Rightarrow> SwiftControlPoint list \<Rightarrow> SwiftControlPoint list" where
  "addControlPoint uuid pos size_of_video cps =
     (let normalizedPosition = fromViewCoordinates pos size_of_video;
          newPoint = ControlPoint_init uuid normalizedPosition
      in cps @ [newPoint])"

definition updateFields ::
  "float2 option \<Rightarrow> real option \<Rightarrow> real option \<Rightarrow> float2 \<Rightarrow> SwiftControlPoint \<Rightarrow> SwiftControlPoint" where
  "updateFields pos str rad size_of_video c =
     (let c1 = (case pos of None \<Rightarrow> c
                | Some p \<Rightarrow> c\<lparr>point_position := fromViewCoordinates p size_of_video\<rparr>);
          c2 = (case str of None \<Rightarrow> c1 | Some s \<Rightarrow> c1\<lparr>point_strength := s\<rparr>);
          c3 = (case rad of None \<Rightarrow> c2 | Some r \<Rightarrow> c2\<lparr>point_radius := r\<rparr>)
      in c3)"

definition updateControlPoint ::
  "nat \<Rightarrow> float2 option \<Rightarrow> real option \<Rightarrow> real option \<Rightarrow> float2 \<Rightarrow>
   SwiftControlPoint list \<Rightarrow> SwiftControlPoint list" where
  "updateControlPoint pointId pos str rad size_of_video cps =
     (case firstIndex (\<lambda>c. point_id c = pointId) cps of
        None \<Rightarrow> cps
      | Some index \<Rightarrow> cps[index := updateFields pos str rad size_of_video (cps ! index)])"

text \<open>
  \<open>VideoEditorView.addControlPoint(at:)\<close>, the editor's tap handler. It divides by the
  width and the height of the view unless both are zero; \<open>max(0, min(1, _))\<close> bounds the
  result whatever the quotient is.
\<close>

definition editor_addControlPoint ::
  "nat \<Rightarrow> float2 \<Rightarrow> float2 \<Rightarrow> SwiftControlPoint list \<Rightarrow> SwiftControlPoint list" where
  "editor_addControlPoint uuid location videoViewSize cps =
     (if videoViewSize = (0, 0) then cps
      else
        let relativeLocation =
              (max 0 (min 1 (fst location / fst videoViewSize)),
               max 0 (min 1 (snd location / snd videoViewSize)));
            newPoint = ControlPoint_init uuid relativeLocation
        in cps @ [newPoint])"

text \<open>The ranges the data model states for a stored control point.\<close>

definition point_in_range :: "SwiftControlPoint \<Rightarrow> bool" where
  "point_in_range c =
     (in_unit_square (point_position c) \<and> 0 \<le> point_strength c \<and> point_strength c \<le> 2 \<and>
      0 < point_radius c \<and> point_radius c \<le> 1)"

definition store_in_range :: "SwiftControlPoint list \<Rightarrow> bool" where
  "store_in_range cps = list_all point_in_range cps"

section \<open>Example data\<close>

text \<open>
  The scenario of the specification: one stretch point at the centre with strength 1 and
  radius 0.2, global strength 1, linear falloff; and the same point on the web.
\<close>

definition centre_point :: ControlPoint where
  "centre_point = \<lparr> position = (1/2, 1/2), strength = 1, radius = 1/5, type = 0 \<rparr>"

definition linear_uniforms :: WarpUniforms where
  "linear_uniforms =
     \<lparr> videoSize = (1920, 1080), globalStrength = 1, numControlPoints = 1, time = 0,
       interpolationType = 0 \<rparr>"

definition web_settings :: WarpSettings where
  "web_settings =
     \<lparr> ws_strength = 1, ws_interpolation = Linear, ws_preserveAspectRatio = False,
       ws_realTimePreview = True, ws_quality = Preview \<rparr>"

definition web_point :: "real \<Rightarrow> real \<Rightarrow> PointType \<Rightarrow> WebControlPoint" where
  "web_point px py kind =
     \<lparr> cp_id = ''point_1'', cp_x = px, cp_y = py, cp_type = kind, cp_strength = 1,
       cp_radius = 1/10, cp_locked = False \<rparr>"

text \<open>An initialised processor with a compiled shader program, a 800 by 600 canvas and the
  mesh resolution 32.\<close>

definition example_processor :: "HTMLVideoElement option \<Rightarrow> WebControlPoint list \<Rightarrow> VideoProcessor" where
  "example_processor v cps =
     \<lparr> canvas_width = 800, canvas_height = 600, video = v, shaderProgram = Some 1,
       texture = Some 1, vertexBuffer = Some 1, indexBuffer = Some 2, controlPoints = cps,
       warpSettings = web_settings, meshResolution = 32, isInitialized = True \<rparr>"

section \<open>Vector facts\<close>

lemma length_vec_nonneg: "0 \<le> length_vec a"
  by (simp add: length_vec_def)

lemma length_vec_x_axis: "length_vec (a, 0) = \<bar>a\<bar>"
  by (simp add: length_vec_def)

lemma length_vec_vscale: "length_vec (vscale a k) = \<bar>k\<bar> * length_vec a"
proof -
  have "fst a * k * (fst a * k) + snd a * k * (snd a * k) = k\<^sup>2 * (fst a * fst a + snd a * snd a)"
    by (simp add: power2_eq_square algebra_simps)
  then show ?thesis
    by (simp add: length_vec_def vscale_def real_sqrt_mult)
qed

lemma length_vec_normalize: "length_vec a \<noteq> 0 \<Longrightarrow> length_vec (normalize_vec a) = 1"
proof -
  assume nz: "length_vec a \<noteq> 0"
  have "normalize_vec a = vscale a (1 / length_vec a)"
    by (simp add: normalize_vec_def vscale_def)
  then have "length_vec (normalize_vec a) = \<bar>1 / length_vec a\<bar> * length_vec a"
    by (simp only: length_vec_vscale)
  also have "\<dots> = 1"
    using nz length_vec_nonneg [of a] by simp
  finally show ?thesis .
qed

lemma vsub_vadd_cancel: "vsub (vadd w a) w = a"
  by (simp add: vsub_def vadd_def)

lemma clamp_real_unit: "0 \<le> clamp_real v 0 1 \<and> clamp_real v 0 1 \<le> 1"
  by (simp add: clamp_real_def)

lemma clamp_vec_in_unit_square: "in_unit_square (clamp_vec a (0, 0) (1, 1))"
  by (simp add: in_unit_square_def clamp_vec_def clamp_real_unit)

lemma clamp_vec_unit_id: "in_unit_square a \<Longrightarrow> clamp_vec a (0, 0) (1, 1) = a"
  by (cases a) (simp add: in_unit_square_def clamp_vec_def clamp_real_def)

section \<open>Facts about the falloff\<close>

lemma smoothstep_unit: "0 \<le> t \<Longrightarrow> t \<le> 1 \<Longrightarrow> smoothstep 0 1 t = t * t * (3 - 2 * t)"
  by (simp add: smoothstep_def clamp_real_def)

lemma interpolate_smooth_elastic:
  "0 \<le> t \<Longrightarrow> t \<le> 1 \<Longrightarrow> interpolate 1 t = interpolate 2 t"
  by (simp add: interpolate_def smoothstep_unit)

text \<open>Inside the influence range the raw influence lies strictly between 0 and 1.\<close>

lemma influence_range:
  fixes r d :: real
  assumes "\<not> (r \<le> d \<or> d < 0.001)"
  shows "0 < 1 - d / r \<and> 1 - d / r < 1"
proof -
  from assms have d: "0 < d" and r: "d < r" by auto
  then have "0 < r" by simp
  with d r show ?thesis by (simp add: field_simps)
qed

lemma warpPoint_smooth_elastic:
  "warpPoint pos c (u\<lparr>interpolationType := 1\<rparr>) w = warpPoint pos c (u\<lparr>interpolationType := 2\<rparr>) w"
proof (cases "radius c \<le> length_vec (vsub pos (position c)) \<or> length_vec (vsub pos (position c)) < 0.001")
  case True
  then show ?thesis by (simp add: warpPoint_def Let_def)
next
  case False
  from influence_range [OF False]
  have "interpolate 1 (1 - length_vec (vsub pos (position c)) / radius c) =
        interpolate 2 (1 - length_vec (vsub pos (position c)) / radius c)"
    by (intro interpolate_smooth_elastic) simp_all
  with False show ?thesis by (simp add: warpPoint_def Let_def)
qed

section \<open>The loops as folds\<close>

lemma loop_cond: "(int i < n \<and> i < 16) = (i < nat (min n 16))"
  by auto

lemma applyWarp_loop_fold:
  "applyWarp_loop pos cps u i w =
     (if nat (min (numControlPoints u) 16) \<le> i then Some w
      else if nat (min (numControlPoints u) 16) \<le> length cps
        then Some (fold (\<lambda>c. warpPoint pos c u) (drop i (take (nat (min (numControlPoints u) 16)) cps)) w)
      else None)"
proof (induction pos cps u i w rule: applyWarp_loop.induct)
  case (1 pos cps u i w)
  let ?n = "nat (min (numControlPoints u) 16)"
  show ?case
  proof (cases "i < ?n")
    case False
    then show ?thesis
      by (subst applyWarp_loop.simps) (simp add: loop_cond)
  next
    case run: True
    show ?thesis
    proof (cases "i < length cps")
      case False
      with run show ?thesis
        by (subst applyWarp_loop.simps) (simp add: loop_cond)
    next
      case True
      with run have c: "int i < numControlPoints u \<and> i < 16"
        by (simp add: loop_cond)
      have step: "applyWarp_loop pos cps u i w =
          applyWarp_loop pos cps u (Suc i) (warpPoint pos (cps ! i) u w)"
        using c True by (subst applyWarp_loop.simps) simp
      have dr: "drop i (take ?n cps) = cps ! i # drop (Suc i) (take ?n cps)"
        if "?n \<le> length cps"
      proof -
        have "i < length (take ?n cps)" using run that by simp
        then have "drop i (take ?n cps) = take ?n cps ! i # drop (Suc i) (take ?n cps)"
          by (rule Cons_nth_drop_Suc [symmetric])
        moreover have "take ?n cps ! i = cps ! i" using run by simp
        ultimately show ?thesis by simp
      qed
      show ?thesis
        unfolding step "1.IH" [OF c True]
        using run True dr by auto
    qed
  qed
qed

lemma applyWarp_loop_0:
  "applyWarp_loop pos cps u 0 w =
     (if nat (min (numControlPoints u) 16) \<le> length cps
        then Some (fold (\<lambda>c. warpPoint pos c u) (take (nat (min (numControlPoints u) 16)) cps) w)
      else None)"
  by (simp add: applyWarp_loop_fold)


lemma applyWarp_glsl_loop_fold:
  "applyWarp_glsl_loop U pos i w =
     fold (\<lambda>j. warpPoint_glsl U pos j) [i..<nat (min (u_numControlPoints U) 16)] w"
proof (induction U pos i w rule: applyWarp_glsl_loop.induct)
  case (1 U pos i w)
  show ?case
  proof (cases "i < nat (min (u_numControlPoints U) 16)")
    case False
    then show ?thesis
      by (subst applyWarp_glsl_loop.simps) (simp add: loop_cond)
  next
    case True
    then have c: "int i < u_numControlPoints U \<and> i < 16"
      by (simp add: loop_cond)
    have "applyWarp_glsl_loop U pos i w =
        applyWarp_glsl_loop U pos (Suc i) (warpPoint_glsl U pos i w)"
      using c by (subst applyWarp_glsl_loop.simps) simp
    then show ?thesis
      using "1.IH" [OF c] True by (simp add: upt_conv_Cons)
  qed
qed

lemma render_uniforms_take:
  "16 \<le> length cps \<Longrightarrow> render_uniforms cps settings = render_uniforms (take 16 cps) settings"
  by (simp add: render_uniforms_def fillArrays_def min_def)

section \<open>The cap of 16 control points\<close>

text \<open>
  Claim C1. The displacement of a vertex depends only on the first 16 control points in
  store order. For the Metal evaluator: two buffers of at least 16 points that agree on
  their first 16 entries give the same result (and do give one), whatever counts of at
  least 16 the uniforms announce. For the web: two point lists of at least 16 points that agree on
  their first 16 entries give the same displacement. Appending a 21st point to 20 is the
  instance of the witness.
\<close>

theorem C1_first_16:
  assumes "take 16 cps = take 16 cps'" and "16 \<le> length cps" and "16 \<le> length cps'"
    and "16 \<le> numControlPoints u" and "16 \<le> n'"
    and "take 16 wcps = take 16 wcps'" and "16 \<le> length wcps" and "16 \<le> length wcps'"
  shows "(\<exists>q. applyWarp pos cps u = Some q \<and>
              applyWarp pos cps' (u\<lparr>numControlPoints := n'\<rparr>) = Some q) \<and>
         displace_web pos wcps settings = displace_web pos wcps' settings"
proof
  have w: "warpPoint pos c (u\<lparr>numControlPoints := n'\<rparr>) = warpPoint pos c u" for c
    by (rule ext) (simp add: warpPoint_def Let_def)
  have "applyWarp_loop pos cps u 0 pos =
      applyWarp_loop pos cps' (u\<lparr>numControlPoints := n'\<rparr>) 0 pos"
    using assms(1-5) by (simp add: applyWarp_loop_0 w min_def)
  moreover have "\<exists>q. applyWarp_loop pos cps u 0 pos = Some q"
    using assms(2,4) by (simp add: applyWarp_loop_0 min_def)
  ultimately show "\<exists>q. applyWarp pos cps u = Some q \<and>
      applyWarp pos cps' (u\<lparr>numControlPoints := n'\<rparr>) = Some q"
    by (auto simp: applyWarp_def)
  have "render_uniforms wcps settings = render_uniforms wcps' settings"
    using assms(6-8) render_uniforms_take [of wcps settings] render_uniforms_take [of wcps' settings]
    by simp
  then show "displace_web pos wcps settings = displace_web pos wcps' settings"
    by (simp add: displace_web_def)
qed

theorem C1_first_16_witness:
  "(\<exists>q. applyWarp (1/4, 1/4) (replicate 20 centre_point)
          (linear_uniforms\<lparr>numControlPoints := 20\<rparr>) = Some q \<and>
        applyWarp (1/4, 1/4) (replicate 20 centre_point @ [centre_point\<lparr>radius := 1\<rparr>])
          (linear_uniforms\<lparr>numControlPoints := 21\<rparr>) = Some q) \<and>
   displace_web (1/4, 1/4) (replicate 20 (web_point (1/2) (1/2) Stretch)) web_settings =
     displace_web (1/4, 1/4)
       (replicate 20 (web_point (1/2) (1/2) Stretch) @ [web_point (1/4) (1/5) Stretch])
       web_settings"
  using C1_first_16 [of "replicate 20 centre_point"
      "replicate 20 centre_point @ [centre_point\<lparr>radius := 1\<rparr>]"
      "linear_uniforms\<lparr>numControlPoints := 20\<rparr>" 21
      "replicate 20 (web_point (1/2) (1/2) Stretch)"
      "replicate 20 (web_point (1/2) (1/2) Stretch) @ [web_point (1/4) (1/5) Stretch]"
      "(1/4, 1/4)" web_settings]
  by simp

section \<open>No control points\<close>

text \<open>
  Claim C5. With the empty point list the displacement of a vertex of the unit square is
  the vertex itself, for every parameter setting: on Metal (the count of the uniforms is
  0, as the list is empty) and on the web.
\<close>

theorem C5_empty_identity:
  assumes "in_unit_square pos" and "numControlPoints u = 0"
  shows "applyWarp pos [] u = Some pos \<and> displace_web pos [] settings = pos"
  using assms
  by (simp add: applyWarp_def applyWarp_loop_0 clamp_vec_unit_id displace_web_def
      applyWarp_glsl_def applyWarp_glsl_loop_fold render_uniforms_def fillArrays_def
      enumerate_eq_zip)

theorem C5_empty_identity_witness:
  "in_unit_square (1/2, 1/2) \<and>
   applyWarp (1/2, 1/2) [] (linear_uniforms\<lparr>numControlPoints := 0\<rparr>) = Some (1/2, 1/2) \<and>
   displace_web (1/2, 1/2) [] web_settings = (1/2, 1/2)"
  using C5_empty_identity [of "(1/2, 1/2)" "linear_uniforms\<lparr>numControlPoints := 0\<rparr>" web_settings]
  by (simp add: in_unit_square_def)

section \<open>The smooth and the elastic falloff\<close>

text \<open>
  Claim C8. On the unit interval \<open>smoothstep(0, 1, t)\<close> is \<open>t\<^sup>2 (3 - 2 t)\<close>, and two parameter
  settings that differ only in smooth (1) against elastic (2) give the same displacement,
  for every vertex and every point list. On the web the interpolation of the settings
  never reaches the shader, so the same holds there.
\<close>

theorem C8_smooth_is_elastic:
  "(\<forall>t. 0 \<le> t \<and> t \<le> 1 \<longrightarrow> smoothstep 0 1 t = t * t * (3 - 2 * t)) \<and>
   applyWarp pos cps (u\<lparr>interpolationType := 1\<rparr>) = applyWarp pos cps (u\<lparr>interpolationType := 2\<rparr>) \<and>
   displace_web pos wcps (settings\<lparr>ws_interpolation := Smooth\<rparr>) =
     displace_web pos wcps (settings\<lparr>ws_interpolation := Elastic\<rparr>)"
proof (intro conjI)
  show "displace_web pos wcps (settings\<lparr>ws_interpolation := Smooth\<rparr>) =
      displace_web pos wcps (settings\<lparr>ws_interpolation := Elastic\<rparr>)"
    by (simp add: displace_web_def render_uniforms_def)
  show "\<forall>t. 0 \<le> t \<and> t \<le> 1 \<longrightarrow> smoothstep 0 1 t = t * t * (3 - 2 * t)"
    by (simp add: smoothstep_unit)
  have "(\<lambda>c. warpPoint pos c (u\<lparr>interpolationType := 1\<rparr>)) =
        (\<lambda>c. warpPoint pos c (u\<lparr>interpolationType := 2\<rparr>))"
    by (intro ext) (rule warpPoint_smooth_elastic)
  then have "applyWarp_loop pos cps (u\<lparr>interpolationType := 1\<rparr>) 0 pos =
        applyWarp_loop pos cps (u\<lparr>interpolationType := 2\<rparr>) 0 pos"
    by (simp add: applyWarp_loop_0)
  then show "applyWarp pos cps (u\<lparr>interpolationType := 1\<rparr>) =
        applyWarp pos cps (u\<lparr>interpolationType := 2\<rparr>)"
    by (simp only: applyWarp_def)
qed

theorem C8_smooth_is_elastic_witness:
  "(0::real) \<le> 3/4 \<and> (3/4::real) \<le> 1 \<and> smoothstep 0 1 (3/4) = (3/4) * (3/4) * (3 - 2 * (3/4)) \<and>
   applyWarp (11/20, 1/2) [centre_point] (linear_uniforms\<lparr>interpolationType := 1\<rparr>) =
     applyWarp (11/20, 1/2) [centre_point] (linear_uniforms\<lparr>interpolationType := 2\<rparr>) \<and>
   applyWarp (11/20, 1/2) [centre_point] (linear_uniforms\<lparr>interpolationType := 2\<rparr>) =
     Some (203/320, 1/2) \<and>
   displace_web (11/20, 1/2) [web_point (1/2) (1/2) Stretch] (web_settings\<lparr>ws_interpolation := Smooth\<rparr>) =
     displace_web (11/20, 1/2) [web_point (1/2) (1/2) Stretch]
       (web_settings\<lparr>ws_interpolation := Elastic\<rparr>)"
proof -
  note same = C8_smooth_is_elastic [of "(11/20, 1/2)" "[centre_point]" linear_uniforms
      "[web_point (1/2) (1/2) Stretch]" web_settings]
  have "warpPoint (11/20, 1/2) centre_point (linear_uniforms\<lparr>interpolationType := 2\<rparr>) (11/20, 1/2) =
      (203/320, 1/2)"
    by (simp add: warpPoint_def centre_point_def linear_uniforms_def interpolate_def vsub_def
        vadd_def vscale_def normalize_vec_def length_vec_x_axis Let_def)
  then have "applyWarp (11/20, 1/2) [centre_point] (linear_uniforms\<lparr>interpolationType := 2\<rparr>) =
      Some (203/320, 1/2)"
    by (simp add: applyWarp_def applyWarp_loop_0 linear_uniforms_def clamp_vec_def clamp_real_def)
  with same show ?thesis by simp
qed

section \<open>One control point\<close>

lemma applyWarp_single:
  "numControlPoints u = 1 \<Longrightarrow>
   applyWarp pos [c] u = Some (clamp_vec (warpPoint pos c u pos) (0, 0) (1, 1))"
  by (simp add: applyWarp_def applyWarp_loop_0)

lemma warpPoint_outside:
  "radius c \<le> length_vec (vsub pos (position c)) \<or> length_vec (vsub pos (position c)) < 0.001 \<Longrightarrow>
   warpPoint pos c u w = w"
  by (simp add: warpPoint_def Let_def)

lemma warpPoint_stretch:
  assumes "type c = 0"
    and "0.001 \<le> length_vec (vsub pos (position c))"
    and "length_vec (vsub pos (position c)) < radius c"
  shows "warpPoint pos c u w =
     vadd w (vscale (vscale (normalize_vec (vsub pos (position c)))
       (strength c *
        interpolate (interpolationType u) (1 - length_vec (vsub pos (position c)) / radius c) *
        globalStrength u)) 0.1)"
  using assms by (simp add: warpPoint_def Let_def)

lemma warpPoint_anchor:
  assumes "type c \<noteq> 0"
    and "0.001 \<le> length_vec (vsub pos (position c))"
    and "length_vec (vsub pos (position c)) < radius c"
  shows "warpPoint pos c u w =
     vsub w (vscale (vscale (vsub pos (position c))
       (strength c *
        interpolate (interpolationType u) (1 - length_vec (vsub pos (position c)) / radius c) *
        globalStrength u)) 0.05)"
  using assms by (simp add: warpPoint_def Let_def)

lemma fillArrays_single:
  "fillArrays [c] =
     ((replicate 32 0)[0 := cp_x c, 1 := cp_y c],
      (replicate 16 0)[0 := cp_strength c],
      (replicate 16 0)[0 := cp_radius c])"
  by (simp add: fillArrays_def enumerate_eq_zip)

lemma vec2_array_0: "2 \<le> length points \<Longrightarrow> vec2_array points ! 0 = (points ! 0, points ! 1)"
  by (simp add: vec2_array_def)

lemma displace_web_single:
  "displace_web pos [c] settings =
     (let offset = vsub pos (cp_x c, cp_y c);
          distance = length_vec offset
      in if distance < cp_radius c \<and> 0 < distance then
           vadd pos (vscale (vscale (normalize_vec offset)
             (cp_strength c * smoothstep 0 1 (1 - distance / cp_radius c) * ws_strength settings))
             0.1)
         else pos)"
proof -
  have n: "u_numControlPoints (render_uniforms [c] settings) = 1"
    by (simp add: render_uniforms_def split: prod.split)
  have p: "u_controlPoints (render_uniforms [c] settings) ! 0 = (cp_x c, cp_y c)"
    by (simp add: render_uniforms_def fillArrays_single vec2_array_0)
  have s: "u_controlStrengths (render_uniforms [c] settings) ! 0 = cp_strength c"
    by (simp add: render_uniforms_def fillArrays_single)
  have r: "u_controlRadii (render_uniforms [c] settings) ! 0 = cp_radius c"
    by (simp add: render_uniforms_def fillArrays_single)
  have g: "u_globalStrength (render_uniforms [c] settings) = ws_strength settings"
    by (simp add: render_uniforms_def split: prod.split)
  have "displace_web pos [c] settings = warpPoint_glsl (render_uniforms [c] settings) pos 0 pos"
    by (simp add: displace_web_def applyWarp_glsl_def applyWarp_glsl_loop_fold n)
  then show ?thesis
    by (simp add: warpPoint_glsl_def p s r g Let_def)
qed

lemma web_away: "displace_web (0, 0) [web_point (1/20) 0 kind] web_settings = (- (1/20), 0)"
  by (simp add: displace_web_single web_point_def web_settings_def vsub_def vadd_def vscale_def
      normalize_vec_def length_vec_x_axis smoothstep_def clamp_real_def Let_def)

section \<open>The Metal evaluator against the web evaluator\<close>

text \<open>
  The Metal \<open>applyWarp\<close> clamps its result, selects the falloff by
  \<open>interpolationType\<close> and pulls towards anchor points. The web shader has no clamp, always
  applies \<open>smoothstep\<close> and treats every point as a stretch point: \<open>render\<close> uploads neither
  the interpolation of the settings nor the type of a point.
\<close>

lemma metal_output_in_unit_square:
  assumes "nat (min (numControlPoints u) 16) \<le> length cps"
  shows "\<exists>q. applyWarp pos cps u = Some q \<and> in_unit_square q"
  using assms by (simp add: applyWarp_def applyWarp_loop_0 clamp_vec_in_unit_square)

lemma metal_output_Some_in_unit_square:
  "applyWarp pos cps u = Some q \<Longrightarrow> in_unit_square q"
  by (auto simp: applyWarp_def clamp_vec_in_unit_square)

lemma metal_influence_weight:
  assumes "type c = 0"
    and "0.001 \<le> length_vec (vsub pos (position c))"
    and "length_vec (vsub pos (position c)) < radius c"
    and "t = 1 - length_vec (vsub pos (position c)) / radius c"
    and "weight = (if interpolationType u = 0 then t
                   else if interpolationType u = 1 then smoothstep 0 1 t
                   else if interpolationType u = 2 then t * t * (3 - 2 * t) else t)"
  shows "warpPoint pos c u w =
     vadd w (vscale (vscale (normalize_vec (vsub pos (position c)))
       (strength c * weight * globalStrength u)) 0.1)"
  using assms by (simp add: warpPoint_stretch interpolate_def)

lemma metal_anchor_pull:
  assumes "type c \<noteq> 0" and "numControlPoints u = 1"
    and "0.001 \<le> length_vec (vsub pos (position c))"
    and "length_vec (vsub pos (position c)) < radius c"
  shows "applyWarp pos [c] u =
     Some (clamp_vec
       (vsub pos (vscale (vscale (vsub pos (position c))
          (strength c *
           interpolate (interpolationType u) (1 - length_vec (vsub pos (position c)) / radius c) *
           globalStrength u)) 0.05))
       (0, 0) (1, 1))"
  using assms by (simp add: applyWarp_single warpPoint_anchor)

lemma displace_web_ignores_interpolation:
  "displace_web pos cps (settings\<lparr>ws_interpolation := k\<rparr>) = displace_web pos cps settings"
  by (simp add: displace_web_def render_uniforms_def)

lemma displace_web_ignores_type:
  "displace_web pos (map (\<lambda>c. c\<lparr>cp_type := k\<rparr>) cps) settings = displace_web pos cps settings"
proof -
  have "fillArrays (map (\<lambda>c. c\<lparr>cp_type := k\<rparr>) cps) = fillArrays cps"
    by (simp add: fillArrays_def enumerate_eq_zip take_map zip_map2 fold_map comp_def case_prod_unfold)
  then show ?thesis
    by (simp add: displace_web_def render_uniforms_def)
qed

text \<open>
  Claim C2, on the web. With the linear interpolation selected, the vertex \<open>(0, 0)\<close> and a
  stretch point at \<open>(0.025, 0)\<close> of radius 0.1 give the raw influence \<open>t = 3/4\<close>. The web
  shader moves the vertex by \<open>0.1 \<cdot> smoothstep(0, 1, t) = 27/320\<close>; the linear weight, as the
  loop body of the Metal evaluator computes it, moves it by \<open>0.1 \<cdot> t = 3/40\<close>.
\<close>

theorem C2_web_linear_is_smooth:
  "ws_interpolation web_settings = Linear \<and>
   displace_web (0, 0) [web_point (1/40) 0 Stretch] web_settings = (- (27/320), 0) \<and>
   warpPoint (0, 0) \<lparr> position = (1/40, 0), strength = 1, radius = 1/10, type = 0 \<rparr>
     linear_uniforms (0, 0) = (- (3/40), 0)"
  by (simp add: displace_web_single web_point_def web_settings_def linear_uniforms_def
      warpPoint_def interpolate_def vsub_def vadd_def vscale_def
      normalize_vec_def length_vec_x_axis smoothstep_def clamp_real_def Let_def)

text \<open>
  Claim C3, on the web. The vertex \<open>(0, 0)\<close> and a stretch point at \<open>(0.05, 0)\<close> of radius
  0.1: the web shader returns \<open>(-0.05, 0)\<close>, outside the unit square.
\<close>

theorem C3_web_not_clamped:
  "displace_web (0, 0) [web_point (1/20) 0 Stretch] web_settings = (- (1/20), 0) \<and>
   \<not> in_unit_square (displace_web (0, 0) [web_point (1/20) 0 Stretch] web_settings)"
  by (simp add: web_away in_unit_square_def)

text \<open>
  Claim C4, on the web. The vertex \<open>(0, 0)\<close> and an anchor point at \<open>(0.05, 0)\<close> of radius
  0.1: the web shader pushes the vertex away from the anchor, to \<open>(-0.05, 0)\<close>; the loop
  body of the Metal evaluator, with the smooth falloff, pulls it towards the anchor, to
  \<open>(1/800, 0)\<close>.
\<close>

theorem C4_web_anchor_pushes:
  "displace_web (0, 0) [web_point (1/20) 0 Anchor] web_settings = (- (1/20), 0) \<and>
   warpPoint (0, 0) \<lparr> position = (1/20, 0), strength = 1, radius = 1/10, type = 1 \<rparr>
     (linear_uniforms\<lparr>interpolationType := 1\<rparr>) (0, 0) = (1/800, 0)"
proof
  show "displace_web (0, 0) [web_point (1/20) 0 Anchor] web_settings = (- (1/20), 0)"
    by (rule web_away)
  show "warpPoint (0, 0) \<lparr> position = (1/20, 0), strength = 1, radius = 1/10, type = 1 \<rparr>
      (linear_uniforms\<lparr>interpolationType := 1\<rparr>) (0, 0) = (1/800, 0)"
    by (simp add: linear_uniforms_def warpPoint_def interpolate_def vsub_def vscale_def
        length_vec_x_axis smoothstep_def clamp_real_def Let_def)
qed

section \<open>Lists built by pushing blocks\<close>

lemma fold_push: "fold (\<lambda>x acc. acc @ f x) xs acc = acc @ concat (map f xs)"
  by (induction xs arbitrary: acc) simp_all

lemma length_concat_uniform:
  "(\<And>x. x \<in> set xs \<Longrightarrow> length (f x) = m) \<Longrightarrow> length (concat (map f xs)) = m * length xs"
  by (induction xs) simp_all

lemma drop_concat_uniform:
  "(\<And>x. x \<in> set xs \<Longrightarrow> length (f x) = m) \<Longrightarrow> j \<le> length xs \<Longrightarrow>
   drop (j * m) (concat (map f xs)) = concat (map f (drop j xs))"
proof (induction xs arbitrary: j)
  case Nil
  then show ?case by simp
next
  case (Cons x xs)
  show ?case
  proof (cases j)
    case 0
    then show ?thesis by simp
  next
    case (Suc k)
    have lx: "length (f x) = m" using Cons.prems(1) by simp
    have "drop (Suc k * m) (f x @ concat (map f xs)) = drop (k * m) (concat (map f xs))"
      using lx by simp
    also have "\<dots> = concat (map f (drop k xs))"
      using Cons.prems Suc by (intro Cons.IH) simp_all
    finally show ?thesis using Suc by simp
  qed
qed

lemma block_concat_uniform:
  assumes "\<And>x. x \<in> set xs \<Longrightarrow> length (f x) = m" and "j < length xs" and "off + k \<le> m"
  shows "take k (drop (j * m + off) (concat (map f xs))) = take k (drop off (f (xs ! j)))"
proof -
  have lj: "length (f (xs ! j)) = m" using assms(1,2) by simp
  have "drop (j * m + off) (concat (map f xs)) = drop off (drop (j * m) (concat (map f xs)))"
    by (simp add: add.commute)
  also have "\<dots> = drop off (concat (map f (drop j xs)))"
    using assms(1,2) by (simp add: drop_concat_uniform)
  also have "drop j xs = xs ! j # drop (Suc j) xs"
    using assms(2) by (simp add: Cons_nth_drop_Suc)
  finally have "drop (j * m + off) (concat (map f xs)) =
      drop off (f (xs ! j)) @ concat (map f (drop (Suc j) xs))"
    using lj assms(3) by simp
  moreover have "k \<le> length (drop off (f (xs ! j)))"
    using lj assms(3) by simp
  ultimately show ?thesis by simp
qed

section \<open>The mesh of \<open>createMesh\<close>\<close>

lemma createMesh_vertices_rows: "createMesh_vertices R = concat (map (vertex_row R) [0..<Suc R])"
proof -
  have inner: "fold (\<lambda>x vertices. vertices @ [real x / real R, real y / real R]) [0..<Suc R] =
      (\<lambda>vertices. vertices @ vertex_row R y)" for y
    unfolding vertex_row_def by (rule ext) (rule fold_push)
  show ?thesis
    unfolding createMesh_vertices_def inner by (simp only: fold_push append_Nil)
qed

lemma createMesh_indices_rows: "createMesh_indices R = concat (map (index_row R) [0..<R])"
proof -
  have inner: "fold (\<lambda>x indices. indices @ cell_indices R y x) [0..<R] =
      (\<lambda>indices. indices @ index_row R y)" for y
    unfolding index_row_def by (rule ext) (rule fold_push)
  show ?thesis
    unfolding createMesh_indices_def inner by (simp only: fold_push append_Nil)
qed

lemma length_cell_indices: "length (cell_indices R y x) = 6"
  by (simp add: cell_indices_def Let_def)

lemma length_vertex_row: "length (vertex_row R y) = 2 * Suc R"
  unfolding vertex_row_def by (subst length_concat_uniform [where m = 2]) simp_all

lemma length_index_row: "length (index_row R y) = 6 * R"
  unfolding index_row_def
  by (subst length_concat_uniform [where m = 6]) (simp_all add: length_cell_indices)

lemma length_createMesh_vertices: "length (createMesh_vertices R) = 2 * (R + 1)\<^sup>2"
  unfolding createMesh_vertices_rows
  by (subst length_concat_uniform [where m = "2 * Suc R"])
    (simp_all add: length_vertex_row power2_eq_square)

lemma length_createMesh_indices: "length (createMesh_indices R) = 6 * R\<^sup>2"
  unfolding createMesh_indices_rows
  by (subst length_concat_uniform [where m = "6 * R"])
    (simp_all add: length_index_row power2_eq_square)

lemma createMesh_vertex:
  assumes "x \<le> R" and "y \<le> R"
  shows "take 2 (drop (2 * (y * (R + 1) + x)) (createMesh_vertices R)) =
     [real x / real R, real y / real R]"
proof -
  have e: "2 * (y * (R + 1) + x) = y * (2 * Suc R) + 2 * x"
    by (simp add: algebra_simps)
  have "take 2 (drop (y * (2 * Suc R) + 2 * x) (concat (map (vertex_row R) [0..<Suc R]))) =
      take 2 (drop (2 * x) (vertex_row R ([0..<Suc R] ! y)))"
    using assms by (intro block_concat_uniform) (simp_all add: length_vertex_row del: upt_Suc)
  also have "[0..<Suc R] ! y = y"
    using assms by (simp del: upt_Suc)
  also have "take 2 (drop (2 * x) (vertex_row R y)) =
      take 2 (drop (x * 2 + 0) (concat (map (\<lambda>x. [real x / real R, real y / real R]) [0..<Suc R])))"
    by (simp add: vertex_row_def mult.commute del: upt_Suc)
  also have "\<dots> = take 2 (drop 0 ((\<lambda>x. [real x / real R, real y / real R]) ([0..<Suc R] ! x)))"
    using assms by (intro block_concat_uniform) (simp_all del: upt_Suc)
  also have "\<dots> = [real x / real R, real y / real R]"
    using assms by (simp del: upt_Suc)
  finally show ?thesis
    by (simp only: e createMesh_vertices_rows)
qed

lemma createMesh_cell:
  assumes "x < R" and "y < R"
  shows "take 6 (drop (6 * (y * R + x)) (createMesh_indices R)) = cell_indices R y x"
proof -
  have e: "6 * (y * R + x) = y * (6 * R) + 6 * x"
    by (simp add: algebra_simps)
  have "take 6 (drop (y * (6 * R) + 6 * x) (concat (map (index_row R) [0..<R]))) =
      take 6 (drop (6 * x) (index_row R ([0..<R] ! y)))"
    using assms by (intro block_concat_uniform) (simp_all add: length_index_row)
  also have "[0..<R] ! y = y"
    using assms by simp
  also have "take 6 (drop (6 * x) (index_row R y)) =
      take 6 (drop (x * 6 + 0) (concat (map (cell_indices R y) [0..<R])))"
    by (simp add: index_row_def mult.commute)
  also have "\<dots> = take 6 (drop 0 (cell_indices R y ([0..<R] ! x)))"
    using assms by (intro block_concat_uniform) (simp_all add: length_cell_indices)
  also have "\<dots> = cell_indices R y x"
    using assms by (simp add: length_cell_indices)
  finally show ?thesis
    by (simp only: e createMesh_indices_rows)
qed

lemma cell_indices_bound:
  assumes "x < R" and "y < R" and "i \<in> set (cell_indices R y x)"
  shows "i < (R + 1)\<^sup>2"
proof -
  have "(y + 1) * (R + 1) \<le> R * (R + 1)"
    using assms(2) by (intro mult_le_mono1) simp
  then have "(y + 1) * (R + 1) + x + 1 < (R + 1) * (R + 1)"
    using assms(1) by simp
  moreover have "i \<le> (y + 1) * (R + 1) + x + 1"
    using assms(3) by (auto simp: cell_indices_def Let_def)
  ultimately show ?thesis by (simp add: power2_eq_square)
qed

lemma createMesh_indices_bound:
  assumes "i \<in> set (createMesh_indices R)"
  shows "i < (R + 1)\<^sup>2"
proof -
  from assms obtain y x where "y < R" "x < R" "i \<in> set (cell_indices R y x)"
    by (auto simp: createMesh_indices_rows index_row_def)
  then show ?thesis using cell_indices_bound by blast
qed

lemma createMesh_indices_uint16:
  assumes "R \<le> 254"
  shows "map (\<lambda>i. i mod 65536) (createMesh_indices R) = createMesh_indices R"
proof -
  have "(R + 1)\<^sup>2 \<le> 255\<^sup>2"
    using assms by (intro power_mono) simp_all
  then have "i < 65536" if "i \<in> set (createMesh_indices R)" for i
    using createMesh_indices_bound [OF that] by simp
  then show ?thesis
    by (simp add: map_idI)
qed

text \<open>
  Claim C6. For every resolution \<open>R \<ge> 1\<close>, \<open>createMesh\<close> pushes \<open>(R + 1)\<^sup>2\<close> vertices of two
  coordinates each, the vertex of column \<open>x\<close> and row \<open>y\<close> at position \<open>y (R + 1) + x\<close> with
  the coordinates \<open>(x / R, y / R)\<close>; it pushes \<open>6 R\<^sup>2\<close> indices, those of the cell \<open>(x, y)\<close>
  at position \<open>6 (y R + x)\<close> as top left, bottom left, top right, then top right, bottom
  left, bottom right; and every index is below \<open>(R + 1)\<^sup>2\<close>.
\<close>

theorem C6_createMesh:
  assumes "1 \<le> R"
  shows "length (createMesh_vertices R) = 2 * (R + 1)\<^sup>2 \<and>
    (\<forall>y\<le>R. \<forall>x\<le>R. take 2 (drop (2 * (y * (R + 1) + x)) (createMesh_vertices R)) =
       [real x / real R, real y / real R]) \<and>
    length (createMesh_indices R) = 6 * R\<^sup>2 \<and>
    (\<forall>y<R. \<forall>x<R. take 6 (drop (6 * (y * R + x)) (createMesh_indices R)) =
       [y * (R + 1) + x, (y + 1) * (R + 1) + x, y * (R + 1) + x + 1,
        y * (R + 1) + x + 1, (y + 1) * (R + 1) + x, (y + 1) * (R + 1) + x + 1]) \<and>
    (\<forall>i\<in>set (createMesh_indices R). i < (R + 1)\<^sup>2)"
proof (intro conjI allI impI ballI)
  show "length (createMesh_vertices R) = 2 * (R + 1)\<^sup>2"
    by (rule length_createMesh_vertices)
  show "length (createMesh_indices R) = 6 * R\<^sup>2"
    by (rule length_createMesh_indices)
  show "take 2 (drop (2 * (y * (R + 1) + x)) (createMesh_vertices R)) =
      [real x / real R, real y / real R]" if "y \<le> R" "x \<le> R" for y x
    using that by (simp only: createMesh_vertex)
  show "take 6 (drop (6 * (y * R + x)) (createMesh_indices R)) =
      [y * (R + 1) + x, (y + 1) * (R + 1) + x, y * (R + 1) + x + 1,
       y * (R + 1) + x + 1, (y + 1) * (R + 1) + x, (y + 1) * (R + 1) + x + 1]"
    if "y < R" "x < R" for y x
    using that by (simp only: createMesh_cell) (simp add: cell_indices_def Let_def)
  show "i < (R + 1)\<^sup>2" if "i \<in> set (createMesh_indices R)" for i
    using that by (rule createMesh_indices_bound)
qed

theorem C6_createMesh_witness:
  "(1::nat) \<le> 2 \<and>
   length (createMesh_vertices 2) = 18 \<and>
   take 2 (drop 8 (createMesh_vertices 2)) = [1/2, 1/2] \<and>
   length (createMesh_indices 2) = 24 \<and>
   take 6 (drop 18 (createMesh_indices 2)) = [4, 7, 5, 5, 7, 8] \<and>
   list_all (\<lambda>i. i < 9) (createMesh_indices 2)"
proof -
  have R: "(1::nat) \<le> 2" by simp
  note mesh = C6_createMesh [OF R]
  have v: "take 2 (drop 8 (createMesh_vertices 2)) = [1/2, 1/2]"
    using mesh [THEN conjunct2, THEN conjunct1, rule_format, of 1 1] by simp
  have c: "take 6 (drop 18 (createMesh_indices 2)) = [4, 7, 5, 5, 7, 8]"
    using mesh [THEN conjunct2, THEN conjunct2, THEN conjunct2, THEN conjunct1,
        rule_format, of 1 1]
    by simp
  have b: "list_all (\<lambda>i. i < 9) (createMesh_indices 2)"
    using mesh by (simp add: list_all_iff power2_eq_square)
  from mesh v c b show ?thesis
    by (simp add: power2_eq_square)
qed

text \<open>
  The Metal kernel builds the same mesh for its fixed resolution of 32: the thread of a
  vertex writes the vertex and, when the vertex is the top left corner of a cell, the six
  indices of the cell at the cell's offset.
\<close>

lemma generateMesh_thread:
  assumes "index < (MESH_RESOLUTION + 1)\<^sup>2"
    and "x = index mod (MESH_RESOLUTION + 1)" and "y = index div (MESH_RESOLUTION + 1)"
  shows "\<exists>v writes. generateMesh index = Some (v, writes) \<and>
    mv_position v = (real x / real MESH_RESOLUTION, real y / real MESH_RESOLUTION) \<and>
    (if x < MESH_RESOLUTION \<and> y < MESH_RESOLUTION
     then map snd writes = cell_indices MESH_RESOLUTION y x \<and>
          map fst writes = map (\<lambda>k. 6 * (y * MESH_RESOLUTION + x) + k) [0, 1, 2, 3, 4, 5]
     else writes = [])"
proof -
  have "\<not> (MESH_RESOLUTION + 1) * (MESH_RESOLUTION + 1) \<le> index"
    using assms(1) by (simp add: power2_eq_square)
  then show ?thesis
    unfolding generateMesh_def assms(2,3) cell_indices_def Let_def
    by (simp add: mult.commute)
qed

section \<open>The falloff of a stretch point\<close>

lemma length_vec_zero: "length_vec (0, 0) = 0"
  by (simp add: length_vec_def)

lemma vsub_self: "vsub a a = (0, 0)"
  by (simp add: vsub_def)

lemma cubic_mono:
  fixes a b :: real
  assumes "0 \<le> a" and "a \<le> b" and "b \<le> 1"
  shows "a * a * (3 - 2 * a) \<le> b * b * (3 - 2 * b)"
proof -
  have "b * b * (3 - 2 * b) - a * a * (3 - 2 * a) =
      (b - a) * (a * (3 - 2 * a - b) + b * (3 - 2 * b - a))"
    by (simp add: algebra_simps)
  moreover have "0 \<le> (b - a) * (a * (3 - 2 * a - b) + b * (3 - 2 * b - a))"
    using assms by (intro mult_nonneg_nonneg add_nonneg_nonneg) simp_all
  ultimately show ?thesis by simp
qed

lemma interpolate_mono:
  assumes "0 \<le> a" and "a \<le> b" and "b \<le> 1"
  shows "interpolate k a \<le> interpolate k b"
  using assms cubic_mono [OF assms]
  by (simp add: interpolate_def smoothstep_unit)

lemma interpolate_nonneg:
  assumes "0 \<le> t" and "t \<le> 1"
  shows "0 \<le> interpolate k t"
proof -
  have "0 \<le> t * t * (3 - 2 * t)"
    using assms by (intro mult_nonneg_nonneg) simp_all
  then show ?thesis
    using assms by (simp add: interpolate_def smoothstep_unit)
qed

text \<open>The length of what one stretch point adds to a vertex, before the clamp.\<close>

lemma stretch_magnitude:
  assumes "type c = 0"
  shows "length_vec (vsub (warpPoint p c u p) p) =
     (if radius c \<le> length_vec (vsub p (position c)) \<or> length_vec (vsub p (position c)) < 0.001
      then 0
      else \<bar>strength c *
             interpolate (interpolationType u) (1 - length_vec (vsub p (position c)) / radius c) *
             globalStrength u\<bar> * 0.1)"
proof (cases "radius c \<le> length_vec (vsub p (position c)) \<or> length_vec (vsub p (position c)) < 0.001")
  case True
  then show ?thesis
    by (simp add: warpPoint_outside vsub_self length_vec_zero)
next
  case False
  then have nz: "length_vec (vsub p (position c)) \<noteq> 0" by auto
  from False assms have "warpPoint p c u p =
     vadd p (vscale (vscale (normalize_vec (vsub p (position c)))
       (strength c *
        interpolate (interpolationType u) (1 - length_vec (vsub p (position c)) / radius c) *
        globalStrength u)) 0.1)"
    by (intro warpPoint_stretch) auto
  then show ?thesis
    using False by (simp add: vsub_vadd_cancel length_vec_vscale length_vec_normalize [OF nz])
qed

lemma stretch_magnitude_mono:
  assumes "type c = 0"
    and "0.001 \<le> length_vec (vsub p1 (position c))"
    and "length_vec (vsub p1 (position c)) \<le> length_vec (vsub p2 (position c))"
  shows "length_vec (vsub (warpPoint p2 c u p2) p2) \<le> length_vec (vsub (warpPoint p1 c u p1) p1)"
proof (cases "radius c \<le> length_vec (vsub p2 (position c))")
  case True
  then have "length_vec (vsub (warpPoint p2 c u p2) p2) = 0"
    by (simp add: stretch_magnitude [OF assms(1)])
  then show ?thesis by (simp add: length_vec_nonneg)
next
  case False
  define d1 where "d1 = length_vec (vsub p1 (position c))"
  define d2 where "d2 = length_vec (vsub p2 (position c))"
  define k where "k = interpolationType u"
  have d: "0.001 \<le> d1" "d1 \<le> d2" "d2 < radius c"
    using assms(2,3) False by (simp_all add: d1_def d2_def)
  then have r: "0 < radius c" by simp
  have t: "0 \<le> 1 - d2 / radius c" "1 - d2 / radius c \<le> 1 - d1 / radius c" "1 - d1 / radius c \<le> 1"
    using d r by (simp_all add: field_simps)
  have K: "interpolate k (1 - d2 / radius c) \<le> interpolate k (1 - d1 / radius c)"
    using t by (rule interpolate_mono)
  have K2: "0 \<le> interpolate k (1 - d2 / radius c)"
    using t by (intro interpolate_nonneg) simp_all
  have K1: "0 \<le> interpolate k (1 - d1 / radius c)"
    using K K2 by simp
  have "\<bar>strength c * interpolate k (1 - d2 / radius c) * globalStrength u\<bar> =
      \<bar>strength c * globalStrength u\<bar> * interpolate k (1 - d2 / radius c)"
    using K2 by (simp add: abs_mult)
  also have "\<dots> \<le> \<bar>strength c * globalStrength u\<bar> * interpolate k (1 - d1 / radius c)"
    using K by (intro mult_left_mono) simp_all
  also have "\<dots> = \<bar>strength c * interpolate k (1 - d1 / radius c) * globalStrength u\<bar>"
    using K1 by (simp add: abs_mult)
  finally have "\<bar>strength c * interpolate k (1 - d2 / radius c) * globalStrength u\<bar> * 0.1 \<le>
      \<bar>strength c * interpolate k (1 - d1 / radius c) * globalStrength u\<bar> * 0.1"
    by simp
  moreover have "length_vec (vsub (warpPoint p1 c u p1) p1) =
      \<bar>strength c * interpolate k (1 - d1 / radius c) * globalStrength u\<bar> * 0.1"
    using d by (simp add: stretch_magnitude [OF assms(1)] d1_def d2_def k_def)
  moreover have "length_vec (vsub (warpPoint p2 c u p2) p2) =
      \<bar>strength c * interpolate k (1 - d2 / radius c) * globalStrength u\<bar> * 0.1"
    using d by (simp add: stretch_magnitude [OF assms(1)] d1_def d2_def k_def)
  ultimately show ?thesis by simp
qed

text \<open>The same for the web shader, whose guard is a positive distance.\<close>

lemma smoothstep_mono:
  assumes "0 \<le> a" and "a \<le> b" and "b \<le> 1"
  shows "smoothstep 0 1 a \<le> smoothstep 0 1 b"
  using interpolate_mono [OF assms, of 1] by (simp add: interpolate_def)

lemma smoothstep_nonneg:
  assumes "0 \<le> t" and "t \<le> 1"
  shows "0 \<le> smoothstep 0 1 t"
  using interpolate_nonneg [OF assms, of 1] by (simp add: interpolate_def)

lemma web_magnitude:
  "length_vec (vsub (displace_web p [c] settings) p) =
     (if length_vec (vsub p (cp_x c, cp_y c)) < cp_radius c \<and> 0 < length_vec (vsub p (cp_x c, cp_y c))
      then \<bar>cp_strength c *
             smoothstep 0 1 (1 - length_vec (vsub p (cp_x c, cp_y c)) / cp_radius c) *
             ws_strength settings\<bar> * 0.1
      else 0)"
proof (cases "length_vec (vsub p (cp_x c, cp_y c)) < cp_radius c \<and> 0 < length_vec (vsub p (cp_x c, cp_y c))")
  case True
  then have nz: "length_vec (vsub p (cp_x c, cp_y c)) \<noteq> 0" by simp
  from True show ?thesis
    by (simp add: displace_web_single Let_def vsub_vadd_cancel length_vec_vscale
        length_vec_normalize [OF nz])
next
  case False
  then show ?thesis
    by (auto simp: displace_web_single Let_def vsub_self length_vec_zero)
qed

lemma web_magnitude_mono:
  assumes "0 < length_vec (vsub p1 (cp_x c, cp_y c))"
    and "length_vec (vsub p1 (cp_x c, cp_y c)) \<le> length_vec (vsub p2 (cp_x c, cp_y c))"
  shows "length_vec (vsub (displace_web p2 [c] settings) p2) \<le>
     length_vec (vsub (displace_web p1 [c] settings) p1)"
proof (cases "length_vec (vsub p2 (cp_x c, cp_y c)) < cp_radius c")
  case False
  then have "length_vec (vsub (displace_web p2 [c] settings) p2) = 0"
    by (simp add: web_magnitude)
  then show ?thesis by (simp add: length_vec_nonneg)
next
  case True
  define d1 where "d1 = length_vec (vsub p1 (cp_x c, cp_y c))"
  define d2 where "d2 = length_vec (vsub p2 (cp_x c, cp_y c))"
  have d: "0 < d1" "d1 \<le> d2" "d2 < cp_radius c"
    using assms True by (simp_all add: d1_def d2_def)
  then have r: "0 < cp_radius c" by simp
  have t: "0 \<le> 1 - d2 / cp_radius c" "1 - d2 / cp_radius c \<le> 1 - d1 / cp_radius c"
    "1 - d1 / cp_radius c \<le> 1"
    using d r by (simp_all add: field_simps)
  have K: "smoothstep 0 1 (1 - d2 / cp_radius c) \<le> smoothstep 0 1 (1 - d1 / cp_radius c)"
    using t by (rule smoothstep_mono)
  have K2: "0 \<le> smoothstep 0 1 (1 - d2 / cp_radius c)"
    using t by (intro smoothstep_nonneg) simp_all
  have K1: "0 \<le> smoothstep 0 1 (1 - d1 / cp_radius c)"
    using K K2 by simp
  have "\<bar>cp_strength c * smoothstep 0 1 (1 - d2 / cp_radius c) * ws_strength settings\<bar> =
      \<bar>cp_strength c * ws_strength settings\<bar> * smoothstep 0 1 (1 - d2 / cp_radius c)"
    using K2 by (simp add: abs_mult)
  also have "\<dots> \<le> \<bar>cp_strength c * ws_strength settings\<bar> * smoothstep 0 1 (1 - d1 / cp_radius c)"
    using K by (intro mult_left_mono) simp_all
  also have "\<dots> = \<bar>cp_strength c * smoothstep 0 1 (1 - d1 / cp_radius c) * ws_strength settings\<bar>"
    using K1 by (simp add: abs_mult)
  finally have "\<bar>cp_strength c * smoothstep 0 1 (1 - d2 / cp_radius c) * ws_strength settings\<bar> * 0.1 \<le>
      \<bar>cp_strength c * smoothstep 0 1 (1 - d1 / cp_radius c) * ws_strength settings\<bar> * 0.1"
    by simp
  moreover have "length_vec (vsub (displace_web p1 [c] settings) p1) =
      \<bar>cp_strength c * smoothstep 0 1 (1 - d1 / cp_radius c) * ws_strength settings\<bar> * 0.1"
    using d by (simp add: web_magnitude d1_def d2_def)
  moreover have "length_vec (vsub (displace_web p2 [c] settings) p2) =
      \<bar>cp_strength c * smoothstep 0 1 (1 - d2 / cp_radius c) * ws_strength settings\<bar> * 0.1"
    using d by (simp add: web_magnitude d1_def d2_def)
  ultimately show ?thesis by simp
qed

text \<open>
  Claim C7, amended. For a single stretch point and every falloff, take two vertices at
  least the coincidence distance 0.001 away from the point, neither of them moved out of
  the unit square (so that the final clamp of the Metal evaluator changes nothing). Then
  the vertex farther from the point is displaced by no more than the nearer one. On the
  web, where the guard is a positive distance and nothing is clamped, the same holds for
  two vertices at a positive distance. At the distance 0 the displacement is zero, so the
  falloff does not extend down to 0.
\<close>

theorem C7_falloff:
  assumes "type c = 0" and "numControlPoints u = 1"
    and "0.001 \<le> length_vec (vsub p1 (position c))"
    and "length_vec (vsub p1 (position c)) \<le> length_vec (vsub p2 (position c))"
    and "in_unit_square (warpPoint p1 c u p1)" and "in_unit_square (warpPoint p2 c u p2)"
    and "0 < length_vec (vsub w1 (cp_x wc, cp_y wc))"
    and "length_vec (vsub w1 (cp_x wc, cp_y wc)) \<le> length_vec (vsub w2 (cp_x wc, cp_y wc))"
  shows "(\<exists>q1 q2. applyWarp p1 [c] u = Some q1 \<and> applyWarp p2 [c] u = Some q2 \<and>
            length_vec (vsub q2 p2) \<le> length_vec (vsub q1 p1)) \<and>
         length_vec (vsub (displace_web w2 [wc] settings) w2) \<le>
           length_vec (vsub (displace_web w1 [wc] settings) w1)"
proof
  show "\<exists>q1 q2. applyWarp p1 [c] u = Some q1 \<and> applyWarp p2 [c] u = Some q2 \<and>
      length_vec (vsub q2 p2) \<le> length_vec (vsub q1 p1)"
    using assms(1-6) stretch_magnitude_mono [OF assms(1,3,4), of u]
    by (simp add: applyWarp_single clamp_vec_unit_id)
  show "length_vec (vsub (displace_web w2 [wc] settings) w2) \<le>
      length_vec (vsub (displace_web w1 [wc] settings) w1)"
    using assms(7,8) by (rule web_magnitude_mono)
qed

text \<open>
  Claim C7 fails at the distance 0: the vertex on the control point stays, the vertex at
  half the radius moves by 0.05.
\<close>

theorem C7_falloff_counterexample:
  "length_vec (vsub (1/2, 1/2) (position centre_point)) = 0 \<and>
   length_vec (vsub (3/5, 1/2) (position centre_point)) = 1/10 \<and>
   radius centre_point = 1/5 \<and>
   applyWarp (1/2, 1/2) [centre_point] linear_uniforms = Some (1/2, 1/2) \<and>
   applyWarp (3/5, 1/2) [centre_point] linear_uniforms = Some (13/20, 1/2) \<and>
   length_vec (vsub (1/2, 1/2) (1/2, 1/2)) < length_vec (vsub (13/20, 1/2) (3/5, 1/2))"
proof -
  have n: "numControlPoints linear_uniforms = 1"
    by (simp add: linear_uniforms_def)
  have a: "warpPoint (1/2, 1/2) centre_point linear_uniforms (1/2, 1/2) = (1/2, 1/2)"
    by (simp add: warpPoint_def centre_point_def vsub_def length_vec_x_axis Let_def)
  have b: "warpPoint (3/5, 1/2) centre_point linear_uniforms (3/5, 1/2) = (13/20, 1/2)"
    by (simp add: warpPoint_def centre_point_def linear_uniforms_def interpolate_def vsub_def
        vadd_def vscale_def normalize_vec_def length_vec_x_axis Let_def)
  show ?thesis
    by (simp add: applyWarp_single [OF n] a b clamp_vec_def clamp_real_def)
      (simp add: centre_point_def vsub_def length_vec_x_axis)
qed


theorem C7_falloff_witness:
  "type centre_point = 0 \<and> numControlPoints linear_uniforms = 1 \<and>
   0.001 \<le> length_vec (vsub (3/5, 1/2) (position centre_point)) \<and>
   length_vec (vsub (3/5, 1/2) (position centre_point)) \<le>
     length_vec (vsub (13/20, 1/2) (position centre_point)) \<and>
   applyWarp (3/5, 1/2) [centre_point] linear_uniforms = Some (13/20, 1/2) \<and>
   applyWarp (13/20, 1/2) [centre_point] linear_uniforms = Some (27/40, 1/2) \<and>
   length_vec (vsub (27/40, 1/2) (13/20, 1/2)) \<le> length_vec (vsub (13/20, 1/2) (3/5, 1/2)) \<and>
   length_vec (vsub (displace_web (0, 0) [web_point (3/40) 0 Stretch] web_settings) (0, 0)) \<le>
     length_vec (vsub (displace_web (1/40, 0) [web_point (3/40) 0 Stretch] web_settings) (1/40, 0))"
proof -
  have t: "type centre_point = 0" and n: "numControlPoints linear_uniforms = 1"
    by (simp_all add: centre_point_def linear_uniforms_def)
  have d1: "length_vec (vsub (3/5, 1/2) (position centre_point)) = 1/10"
    and d2: "length_vec (vsub (13/20, 1/2) (position centre_point)) = 3/20"
    by (simp_all add: centre_point_def vsub_def length_vec_x_axis)
  have a: "warpPoint (3/5, 1/2) centre_point linear_uniforms (3/5, 1/2) = (13/20, 1/2)"
    by (simp add: warpPoint_def centre_point_def linear_uniforms_def interpolate_def vsub_def
        vadd_def vscale_def normalize_vec_def length_vec_x_axis Let_def)
  have b: "warpPoint (13/20, 1/2) centre_point linear_uniforms (13/20, 1/2) = (27/40, 1/2)"
    by (simp add: warpPoint_def centre_point_def linear_uniforms_def interpolate_def vsub_def
        vadd_def vscale_def normalize_vec_def length_vec_x_axis Let_def)
  have q1: "applyWarp (3/5, 1/2) [centre_point] linear_uniforms = Some (13/20, 1/2)"
    and q2: "applyWarp (13/20, 1/2) [centre_point] linear_uniforms = Some (27/40, 1/2)"
    by (simp_all add: applyWarp_single [OF n] a b clamp_vec_def clamp_real_def)
  have w1: "length_vec (vsub (1/40, 0) (cp_x (web_point (3/40) 0 Stretch), cp_y (web_point (3/40) 0 Stretch))) = 1/20"
    and w2: "length_vec (vsub (0, 0) (cp_x (web_point (3/40) 0 Stretch), cp_y (web_point (3/40) 0 Stretch))) = 3/40"
    by (simp_all add: web_point_def vsub_def length_vec_x_axis)
  have both: "(\<exists>q1 q2. applyWarp (3/5, 1/2) [centre_point] linear_uniforms = Some q1 \<and>
      applyWarp (13/20, 1/2) [centre_point] linear_uniforms = Some q2 \<and>
      length_vec (vsub q2 (13/20, 1/2)) \<le> length_vec (vsub q1 (3/5, 1/2))) \<and>
    length_vec (vsub (displace_web (0, 0) [web_point (3/40) 0 Stretch] web_settings) (0, 0)) \<le>
      length_vec (vsub (displace_web (1/40, 0) [web_point (3/40) 0 Stretch] web_settings) (1/40, 0))"
    by (rule C7_falloff [OF t n]) (simp_all add: d1 d2 a b w1 w2 in_unit_square_def)
  then have "length_vec (vsub (27/40, 1/2) (13/20, 1/2)) \<le> length_vec (vsub (13/20, 1/2) (3/5, 1/2))"
    by (simp add: q1 q2)
  with both t n d1 d2 q1 q2 show ?thesis by simp
qed

text \<open>
  The clamp breaks the falloff as well: a vertex near the border, close to the control
  point, is clamped to a shorter displacement than a vertex farther away.
\<close>

lemma clamp_breaks_falloff:
  "length_vec (vsub (99/100, 1/2) (4/5, 1/2)) = 19/100 \<and>
   length_vec (vsub (1/2, 1/2) (4/5, 1/2)) = 3/10 \<and>
   applyWarp (99/100, 1/2) [\<lparr> position = (4/5, 1/2), strength = 1, radius = 1, type = 0 \<rparr>]
     linear_uniforms = Some (1, 1/2) \<and>
   applyWarp (1/2, 1/2) [\<lparr> position = (4/5, 1/2), strength = 1, radius = 1, type = 0 \<rparr>]
     linear_uniforms = Some (43/100, 1/2) \<and>
   length_vec (vsub (1, 1/2) (99/100, 1/2)) < length_vec (vsub (43/100, 1/2) (1/2, 1/2))"
proof -
  have n: "numControlPoints linear_uniforms = 1"
    by (simp add: linear_uniforms_def)
  have a: "warpPoint (99/100, 1/2) \<lparr> position = (4/5, 1/2), strength = 1, radius = 1, type = 0 \<rparr>
      linear_uniforms (99/100, 1/2) = (1071/1000, 1/2)"
    by (simp add: warpPoint_def linear_uniforms_def interpolate_def vsub_def
        vadd_def vscale_def normalize_vec_def length_vec_x_axis Let_def)
  have b: "warpPoint (1/2, 1/2) \<lparr> position = (4/5, 1/2), strength = 1, radius = 1, type = 0 \<rparr>
      linear_uniforms (1/2, 1/2) = (43/100, 1/2)"
    by (simp add: warpPoint_def linear_uniforms_def interpolate_def vsub_def
        vadd_def vscale_def normalize_vec_def length_vec_x_axis Let_def)
  show ?thesis
    by (simp add: applyWarp_single [OF n] a b clamp_vec_def clamp_real_def)
      (simp add: vsub_def length_vec_x_axis)
qed

section \<open>The render tick of the web host\<close>

lemma render_pass_calls:
  "Clear \<in> set (render_pass vp t) \<and>
   DrawElements (meshResolution vp * meshResolution vp * 6) \<in> set (render_pass vp t) \<and>
   Uniform1i ''u_numControlPoints'' (min (int (length (controlPoints vp))) 16)
     \<in> set (render_pass vp t) \<and>
   (\<forall>f. TexImage2D f \<notin> set (render_pass vp t))"
  by (cases "fillArrays (controlPoints vp)" rule: prod_cases3) (simp add: render_pass_def Let_def)

text \<open>The uniforms of \<open>render_uniforms\<close> are the ones the render pass uploads.\<close>

lemma render_pass_uploads:
  "Uniform1f ''u_globalStrength''
     (u_globalStrength (render_uniforms (controlPoints vp) (warpSettings vp))) \<in> set (render_pass vp t) \<and>
   Uniform1i ''u_numControlPoints''
     (u_numControlPoints (render_uniforms (controlPoints vp) (warpSettings vp))) \<in> set (render_pass vp t) \<and>
   Uniform1fv ''u_controlStrengths''
     (u_controlStrengths (render_uniforms (controlPoints vp) (warpSettings vp))) \<in> set (render_pass vp t) \<and>
   Uniform1fv ''u_controlRadii''
     (u_controlRadii (render_uniforms (controlPoints vp) (warpSettings vp))) \<in> set (render_pass vp t) \<and>
   (\<exists>points. Uniform2fv ''u_controlPoints'' points \<in> set (render_pass vp t) \<and>
      u_controlPoints (render_uniforms (controlPoints vp) (warpSettings vp)) = vec2_array points)"
  by (cases "fillArrays (controlPoints vp)" rule: prod_cases3)
    (simp add: render_pass_def render_uniforms_def Let_def)

lemma render_decoded:
  assumes "isInitialized vp" and "video vp = Some v" and "shaderProgram vp \<noteq> None"
    and "HAVE_CURRENT_DATA \<le> readyState v"
  shows "render vp t = [BindTexture, TexImage2D (frame v)] @ render_pass vp t"
  using assms by (auto simp: render_def render_upload_def)

text \<open>
  Claim C9 fails where the frame is not decoded yet: with a video loaded whose ready state
  is below \<open>HAVE_CURRENT_DATA\<close>, the tick is not a no-op. It clears the canvas, uploads
  the current control points and draws the mesh.
\<close>

theorem C9_render_counterexample:
  "readyState \<lparr> readyState = 1, frame = 7 \<rparr> < HAVE_CURRENT_DATA \<and>
   render (example_processor (Some \<lparr> readyState = 1, frame = 7 \<rparr>) [web_point (1/2) (1/2) Stretch]) None \<noteq> [] \<and>
   Clear \<in> set (render (example_processor (Some \<lparr> readyState = 1, frame = 7 \<rparr>)
      [web_point (1/2) (1/2) Stretch]) None) \<and>
   Uniform1i ''u_numControlPoints'' 1 \<in> set (render (example_processor (Some \<lparr> readyState = 1, frame = 7 \<rparr>)
      [web_point (1/2) (1/2) Stretch]) None) \<and>
   DrawElements 6144 \<in> set (render (example_processor (Some \<lparr> readyState = 1, frame = 7 \<rparr>)
      [web_point (1/2) (1/2) Stretch]) None)"
  by (simp add: render_def render_upload_def render_pass_def example_processor_def
      HAVE_CURRENT_DATA_def Let_def split: prod.split)

text \<open>
  Claim C9, amended. \<open>render\<close> has no \<open>throw\<close> and always returns. While the processor is
  not initialised, has no video or has no shader program, \<open>render\<close> issues no WebGL call
  at all. With a video whose current frame is not decoded yet, \<open>render\<close> skips the texture
  upload only: it still clears the canvas, sets the uniforms from the current control
  points and draws the mesh.
\<close>

theorem C9_render_tick:
  "(\<not> isInitialized vp \<or> video vp = None \<or> shaderProgram vp = None \<longrightarrow> render vp t = []) \<and>
   (isInitialized vp \<and> video vp = Some v \<and> shaderProgram vp \<noteq> None \<and>
      readyState v < HAVE_CURRENT_DATA \<longrightarrow>
      render vp t = render_pass vp t \<and>
      (\<forall>f. TexImage2D f \<notin> set (render vp t)) \<and>
      Clear \<in> set (render vp t) \<and>
      Uniform1i ''u_numControlPoints'' (min (int (length (controlPoints vp))) 16)
        \<in> set (render vp t) \<and>
      DrawElements (meshResolution vp * meshResolution vp * 6) \<in> set (render vp t))"
proof (intro conjI impI)
  assume "\<not> isInitialized vp \<or> video vp = None \<or> shaderProgram vp = None"
  then show "render vp t = []"
    by (auto simp: render_def)
next
  assume a: "isInitialized vp \<and> video vp = Some v \<and> shaderProgram vp \<noteq> None \<and>
      readyState v < HAVE_CURRENT_DATA"
  then show r: "render vp t = render_pass vp t"
    by (auto simp: render_def render_upload_def)
  show "\<forall>f. TexImage2D f \<notin> set (render vp t)"
    and "Clear \<in> set (render vp t)"
    and "Uniform1i ''u_numControlPoints'' (min (int (length (controlPoints vp))) 16)
        \<in> set (render vp t)"
    and "DrawElements (meshResolution vp * meshResolution vp * 6) \<in> set (render vp t)"
    unfolding r using render_pass_calls [of vp t] by simp_all
qed

theorem C9_render_tick_witness:
  "render (example_processor None []) (Some 0) = [] \<and>
   render (example_processor (Some \<lparr> readyState = 1, frame = 7 \<rparr>) []) (Some 0) =
     render_pass (example_processor (Some \<lparr> readyState = 1, frame = 7 \<rparr>) []) (Some 0) \<and>
   Clear \<in> set (render (example_processor (Some \<lparr> readyState = 1, frame = 7 \<rparr>) []) (Some 0)) \<and>
   DrawElements 6144 \<in> set (render (example_processor (Some \<lparr> readyState = 1, frame = 7 \<rparr>) []) (Some 0))"
proof -
  let ?v = "\<lparr> readyState = 1, frame = 7 \<rparr>"
  have idle: "video (example_processor None []) = None"
    by (simp add: example_processor_def)
  have waiting: "isInitialized (example_processor (Some ?v) []) \<and>
      video (example_processor (Some ?v) []) = Some ?v \<and>
      shaderProgram (example_processor (Some ?v) []) \<noteq> None \<and>
      readyState ?v < HAVE_CURRENT_DATA"
    by (simp add: example_processor_def HAVE_CURRENT_DATA_def)
  have m: "meshResolution (example_processor (Some ?v) []) *
      meshResolution (example_processor (Some ?v) []) * 6 = 6144"
    by (simp add: example_processor_def)
  from idle have a: "render (example_processor None []) (Some 0) = []"
    using C9_render_tick [of "example_processor None []" "Some 0"] by blast
  from waiting have b:
    "render (example_processor (Some ?v) []) (Some 0) =
       render_pass (example_processor (Some ?v) []) (Some 0) \<and>
     Clear \<in> set (render (example_processor (Some ?v) []) (Some 0)) \<and>
     DrawElements (meshResolution (example_processor (Some ?v) []) *
       meshResolution (example_processor (Some ?v) []) * 6)
       \<in> set (render (example_processor (Some ?v) []) (Some 0))"
    using C9_render_tick [of "example_processor (Some ?v) []" "Some 0" ?v] by blast
  from b have d: "DrawElements 6144 \<in> set (render (example_processor (Some ?v) []) (Some 0))"
    unfolding m by blast
  from a b d show ?thesis
    by blast
qed

section \<open>Writes to the control point store\<close>

lemma firstIndex_less: "firstIndex P cs = Some i \<Longrightarrow> i < length cs"
  by (induction cs arbitrary: i) (auto split: if_splits)

lemma list_all_update:
  "list_all P xs \<Longrightarrow> i < length xs \<Longrightarrow> list_all P (xs[i := v]) = P v"
  by (induction xs arbitrary: i) (auto split: nat.splits)

lemma point_in_range_updateFields:
  assumes "point_in_range c"
  shows "point_in_range (updateFields pos str rad sz c) =
     ((case pos of None \<Rightarrow> True | Some p \<Rightarrow> in_unit_square (fromViewCoordinates p sz)) \<and>
      (case str of None \<Rightarrow> True | Some s \<Rightarrow> 0 \<le> s \<and> s \<le> 2) \<and>
      (case rad of None \<Rightarrow> True | Some r \<Rightarrow> 0 < r \<and> r \<le> 1))"
  using assms
  by (auto simp: point_in_range_def updateFields_def Let_def split: option.splits)

lemma point_in_range_init:
  "point_in_range (ControlPoint_init uuid p) = in_unit_square p"
  by (simp add: point_in_range_def ControlPoint_init_def)

lemma editor_addControlPoint_in_range:
  "store_in_range cps \<Longrightarrow> store_in_range (editor_addControlPoint uuid location viewSize cps)"
  by (simp add: store_in_range_def editor_addControlPoint_def Let_def point_in_range_init
      in_unit_square_def)

text \<open>
  Claim C10 fails on \<open>updateControlPoint\<close>: a strength of 5 is stored as it is.
\<close>

theorem C10_store_counterexample:
  "store_in_range [ControlPoint_init 1 (1/2, 1/2)] \<and>
   \<not> store_in_range
       (updateControlPoint 1 None (Some 5) None (1920, 1080) [ControlPoint_init 1 (1/2, 1/2)])"
  by (simp add: store_in_range_def point_in_range_def updateControlPoint_def updateFields_def
      ControlPoint_init_def in_unit_square_def)

text \<open>
  Claim C10, amended. The editor's \<open>addControlPoint\<close> clamps the position into the unit
  square and creates the point with strength 1 and radius 0.1, so it keeps every stored
  point in range. \<open>updateControlPoint\<close> writes the strength and the radius it is given,
  unclamped: after such an update of a store in range, the store is in range exactly when
  the values written are.
\<close>

theorem C10_store_writes:
  "(store_in_range cps \<longrightarrow> store_in_range (editor_addControlPoint uuid location viewSize cps)) \<and>
   (store_in_range cps \<and> firstIndex (\<lambda>c. point_id c = pointId) cps = Some i \<longrightarrow>
      updateControlPoint pointId None str rad sz cps ! i =
        updateFields None str rad sz (cps ! i) \<and>
      store_in_range (updateControlPoint pointId None str rad sz cps) =
        ((case str of None \<Rightarrow> True | Some s \<Rightarrow> 0 \<le> s \<and> s \<le> 2) \<and>
         (case rad of None \<Rightarrow> True | Some r \<Rightarrow> 0 < r \<and> r \<le> 1))) \<and>
   point_strength (updateFields pos (Some s) rad sz c) = s \<and>
   point_radius (updateFields pos str (Some r) sz c) = r"
proof (intro conjI impI)
  assume "store_in_range cps"
  then show "store_in_range (editor_addControlPoint uuid location viewSize cps)"
    by (rule editor_addControlPoint_in_range)
next
  assume a: "store_in_range cps \<and> firstIndex (\<lambda>c. point_id c = pointId) cps = Some i"
  then have i: "i < length cps" by (auto dest: firstIndex_less)
  from a have ci: "point_in_range (cps ! i)"
    using i by (simp add: store_in_range_def list_all_length)
  show "updateControlPoint pointId None str rad sz cps ! i = updateFields None str rad sz (cps ! i)"
    using a i by (simp add: updateControlPoint_def)
  show "store_in_range (updateControlPoint pointId None str rad sz cps) =
        ((case str of None \<Rightarrow> True | Some s \<Rightarrow> 0 \<le> s \<and> s \<le> 2) \<and>
         (case rad of None \<Rightarrow> True | Some r \<Rightarrow> 0 < r \<and> r \<le> 1))"
    using a i by (simp add: updateControlPoint_def store_in_range_def list_all_update
        point_in_range_updateFields [OF ci])
next
  show "point_strength (updateFields pos (Some s) rad sz c) = s"
    by (simp add: updateFields_def Let_def split: option.splits)
  show "point_radius (updateFields pos str (Some r) sz c) = r"
    by (simp add: updateFields_def Let_def split: option.splits)
qed

theorem C10_store_writes_witness:
  "store_in_range [ControlPoint_init 1 (1/2, 1/2)] \<and>
   store_in_range (editor_addControlPoint 2 (2000, 500) (1000, 1000) [ControlPoint_init 1 (1/2, 1/2)]) \<and>
   firstIndex (\<lambda>c. point_id c = 1) [ControlPoint_init 1 (1/2, 1/2)] = Some 0 \<and>
   store_in_range
     (updateControlPoint 1 None (Some (3/2)) (Some (1/4)) (1920, 1080) [ControlPoint_init 1 (1/2, 1/2)]) \<and>
   point_strength (updateFields None (Some (3/2)) (Some (1/4)) (1920, 1080)
     (ControlPoint_init 1 (1/2, 1/2))) = 3/2"
proof -
  have ok: "store_in_range [ControlPoint_init 1 (1/2, 1/2)]"
    by (simp add: store_in_range_def point_in_range_init in_unit_square_def)
  have ix: "firstIndex (\<lambda>c. point_id c = 1) [ControlPoint_init 1 (1/2, 1/2)] = Some 0"
    by (simp add: ControlPoint_init_def)
  note w = C10_store_writes [where cps = "[ControlPoint_init 1 (1/2, 1/2)]" and uuid = 2
      and location = "(2000, 500)" and viewSize = "(1000, 1000)" and pointId = 1 and i = 0
      and pos = None and str = "Some (3/2)" and rad = "Some (1/4)" and sz = "(1920, 1080)"
      and s = "3/2" and c = "ControlPoint_init 1 (1/2, 1/2)"]
  from w ok ix show ?thesis by simp
qed

text \<open>
  The position writes of the store divide by the size of the video and do not clamp
  either: a tap right of the frame lands outside the unit square.
\<close>

lemma addControlPoint_unclamped:
  "\<not> store_in_range (addControlPoint 2 (3000, 500) (1920, 1080) [])"
  by (simp add: store_in_range_def addControlPoint_def fromViewCoordinates_def Let_def
      point_in_range_init in_unit_square_def)

end
